theory Spec2Isabelle
  imports Main "HOL-Library.Word"
begin

unbundle bit_operations_syntax

section \<open>Python values\<close>

text \<open>
  A \<open>bytes\<close> object is a list of 8-bit words. A \<open>str\<close> is a \<open>string\<close> holding the
  UTF-8 code units of the text, so an ASCII text is the list of its characters.
  \<open>pyval\<close> lists the values that the shared map stores as they are given: bytes,
  strings, \<open>None\<close> and booleans. A Python \<open>int\<close> is not among them: the map converts
  it to a float, or refuses it when it is out of range.
\<close>

type_synonym byte = "8 word"

datatype pyval = Bytes "byte list" | Str string | PyNone | PyBool bool

datatype error = Binascii_Error | UnicodeDecodeError | AttributeError

definition is_Bytes :: "pyval \<Rightarrow> bool" where
  "is_Bytes v = (case v of Bytes b \<Rightarrow> True | _ \<Rightarrow> False)"

definition is_Str :: "pyval \<Rightarrow> bool" where
  "is_Str v = (case v of Str s \<Rightarrow> True | _ \<Rightarrow> False)"

subsection \<open>\<open>str.encode()\<close> and \<open>bytes.decode()\<close> (UTF-8)\<close>

definition byte_of_char :: "char \<Rightarrow> byte" where
  "byte_of_char c = of_nat (of_char c)"

definition char_of_byte :: "byte \<Rightarrow> char" where
  "char_of_byte b = char_of (unat b)"

definition str_encode :: "string \<Rightarrow> byte list" where
  "str_encode s = map byte_of_char s"

definition is_cont :: "byte \<Rightarrow> bool" where
  "is_cont b = (0x80 \<le> b \<and> b \<le> 0xBF)"

text \<open>Well-formed UTF-8 (no overlong forms, no surrogates, nothing above U+10FFFF).\<close>

fun utf8_valid :: "byte list \<Rightarrow> bool" where
  "utf8_valid [] = True"
| "utf8_valid (b # bs) =
     (if b < 0x80 then utf8_valid bs
      else if 0xC2 \<le> b \<and> b \<le> 0xDF then
        (case bs of
           c # r \<Rightarrow> is_cont c \<and> utf8_valid r
         | _ \<Rightarrow> False)
      else if 0xE0 \<le> b \<and> b \<le> 0xEF then
        (case bs of
           c # d # r \<Rightarrow>
             is_cont c \<and> is_cont d \<and> (if b = 0xE0 then 0xA0 \<le> c else True) \<and>
             (if b = 0xED then c \<le> 0x9F else True) \<and> utf8_valid r
         | _ \<Rightarrow> False)
      else if 0xF0 \<le> b \<and> b \<le> 0xF4 then
        (case bs of
           c # d # e # r \<Rightarrow>
             is_cont c \<and> is_cont d \<and> is_cont e \<and> (if b = 0xF0 then 0x90 \<le> c else True) \<and>
             (if b = 0xF4 then c \<le> 0x8F else True) \<and> utf8_valid r
         | _ \<Rightarrow> False)
      else False)"

definition bytes_decode :: "byte list \<Rightarrow> error + string" where
  "bytes_decode bs =
     (if utf8_valid bs then Inr (map char_of_byte bs) else Inl UnicodeDecodeError)"

section \<open>The standard library's base64 codec\<close>

text \<open>
  \<open>base64.b64encode\<close> and \<open>base64.b64decode\<close> of the Python standard library, with
  their default arguments, as \<open>yblob.py\<close> calls them (\<open>binascii.b2a_base64\<close> without
  the newline, and \<open>binascii.a2b_base64\<close> in its non-strict mode). The encoder maps each
  group of three bytes to four characters of the alphabet and pads the last group with
  \<open>=\<close>.
\<close>

definition table_b2a_base64 :: string where
  "table_b2a_base64 = ''ABCDEFGHIJKLMNOPQRSTUVWXYZabcdefghijklmnopqrstuvwxyz0123456789+/''"

definition BASE64_PAD :: byte where
  "BASE64_PAD = 61"

definition b2a_char :: "byte \<Rightarrow> byte" where
  "b2a_char v = byte_of_char (table_b2a_base64 ! unat (v AND 0x3f))"

fun b64encode :: "byte list \<Rightarrow> byte list" where
  "b64encode [] = []"
| "b64encode [a] =
     [b2a_char (drop_bit 2 a), b2a_char (push_bit 4 (a AND 3)), BASE64_PAD, BASE64_PAD]"
| "b64encode [a, b] =
     [b2a_char (drop_bit 2 a), b2a_char (push_bit 4 (a AND 3) OR drop_bit 4 b),
      b2a_char (push_bit 2 (b AND 0xf)), BASE64_PAD]"
| "b64encode (a # b # c # rest) =
     [b2a_char (drop_bit 2 a), b2a_char (push_bit 4 (a AND 3) OR drop_bit 4 b),
      b2a_char (push_bit 2 (b AND 0xf) OR drop_bit 6 c), b2a_char (c AND 0x3f)]
     @ b64encode rest"

text \<open>The decoding table: the 6-bit value of an alphabet character, nothing otherwise.\<close>

definition table_a2b_base64 :: "byte \<Rightarrow> byte option" where
  "table_a2b_base64 c =
     (if 65 \<le> c \<and> c \<le> 90 then Some (c - 65)
      else if 97 \<le> c \<and> c \<le> 122 then Some (c - 71)
      else if 48 \<le> c \<and> c \<le> 57 then Some (c + 4)
      else if c = 43 then Some 62
      else if c = 47 then Some 63
      else None)"

text \<open>
  The decoder in its default, non-strict mode: one pass over the input with the position
  in the current group of four (\<open>quad_pos\<close>), the bits left over from the previous
  character (\<open>leftchar\<close>) and the number of padding characters seen since the last
  alphabet character (\<open>pads\<close>). A character outside the alphabet is skipped. Padding
  that completes the current group ends the decoding, whatever follows. Input that ends
  inside a group is an error.
\<close>

fun a2b_loop :: "byte list \<Rightarrow> nat \<Rightarrow> byte \<Rightarrow> nat \<Rightarrow> byte list \<Rightarrow> error + byte list" where
  "a2b_loop [] quad_pos leftchar pads out =
     (if quad_pos \<noteq> 0 then Inl Binascii_Error else Inr out)"
| "a2b_loop (this_ch # rest) quad_pos leftchar pads out =
     (if this_ch = BASE64_PAD then
        (if quad_pos \<ge> 2 then
           (if quad_pos + (pads + 1) \<ge> 4 then Inr out
            else a2b_loop rest quad_pos leftchar (pads + 1) out)
         else a2b_loop rest quad_pos leftchar pads out)
      else
        (case table_a2b_base64 this_ch of
           None \<Rightarrow> a2b_loop rest quad_pos leftchar pads out
         | Some v \<Rightarrow>
             (if quad_pos = 0 then a2b_loop rest 1 v 0 out
              else if quad_pos = 1 then
                a2b_loop rest 2 (v AND 0x0f) 0 (out @ [push_bit 2 leftchar OR drop_bit 4 v])
              else if quad_pos = 2 then
                a2b_loop rest 3 (v AND 0x03) 0 (out @ [push_bit 4 leftchar OR drop_bit 2 v])
              else if quad_pos = 3 then
                a2b_loop rest 0 0 0 (out @ [push_bit 6 leftchar OR v])
              else a2b_loop rest quad_pos leftchar 0 out)))"

definition b64decode :: "byte list \<Rightarrow> error + byte list" where
  "b64decode s = a2b_loop s 0 0 0 []"

subsection \<open>Valid base64 text\<close>

text \<open>An alphabet character is one of \<open>A-Z\<close>, \<open>a-z\<close>, \<open>0-9\<close>, \<open>+\<close> and \<open>/\<close>.\<close>

definition b64_char :: "char \<Rightarrow> bool" where
  "b64_char c =
     (let n = (of_char c :: nat)
      in 65 \<le> n \<and> n \<le> 90 \<or> 97 \<le> n \<and> n \<le> 122 \<or> 48 \<le> n \<and> n \<le> 57 \<or> n = 43 \<or> n = 47)"

text \<open>
  What the specification calls valid base64 text: groups of four alphabet characters,
  the last group possibly ending in \<open>=\<close> or \<open>==\<close>.
\<close>

fun valid_base64 :: "string \<Rightarrow> bool" where
  "valid_base64 [] = True"
| "valid_base64 [a, b, c, d] =
     (b64_char a \<and> b64_char b \<and>
      (if c = CHR ''='' then d = CHR ''=''
       else b64_char c \<and> (d = CHR ''='' \<or> b64_char d)))"
| "valid_base64 (a # b # c # d # rest) =
     (b64_char a \<and> b64_char b \<and> b64_char c \<and> b64_char d \<and> valid_base64 rest)"
| "valid_base64 _ = False"

section \<open>The CRDT substrate\<close>

text \<open>
  The shared document (\<open>pycrdt.Doc\<close>) is an external collaborator. It is modelled by
  the interface the document type consumes: named root maps, reading and writing a key
  of a map, transactions, and a per-node \<open>observe(handler)\<close> that returns a
  subscription handle, with \<open>unobserve(handle)\<close>.

  Every write runs in a transaction: the caller's, when one is open, or one of its own.
  The write changes the map at once. The handlers are called when the outermost
  transaction is left: for each node written in the transaction, every handler registered
  on it is called once, the latest registered first, with one event for all the writes to
  that node.

  A handler is \<open>partial(callback, label)\<close>: the pair of the callback and the label
  bound to it. What the callback does is the application's business; the model records
  each invocation (callback, label, event) in \<open>calls\<close>. The event is opaque to the
  document type; the model keeps in it the keys and values written.
\<close>

datatype node = State | Source

type_synonym ymap = "string \<rightharpoonup> pyval"

datatype event = MapEvent "(string \<times> pyval) list"

record 'c Doc =
  roots :: "node \<Rightarrow> ymap"
  observers :: "node \<Rightarrow> (nat \<times> ('c \<times> string)) list"
  next_subscription :: nat
  txn_depth :: nat
  pending :: "(node \<times> string \<times> pyval) list"
  calls :: "('c \<times> string \<times> event) list"

definition Doc_new :: "'c Doc" where
  "Doc_new = \<lparr>roots = (\<lambda>n. Map.empty), observers = (\<lambda>n. []), next_subscription = 0,
     txn_depth = 0, pending = [], calls = []\<rparr>"

definition Map_get :: "ymap \<Rightarrow> string \<Rightarrow> pyval \<Rightarrow> pyval" where
  "Map_get m key dflt = (case m key of None \<Rightarrow> dflt | Some v \<Rightarrow> v)"

definition fire :: "(nat \<times> ('c \<times> string)) list \<Rightarrow> event \<Rightarrow> ('c \<times> string \<times> event) list" where
  "fire obs ev = map (\<lambda>(h, (cb, label)). (cb, label, ev)) (rev obs)"

text \<open>The writes of the open transaction to one node, in order.\<close>

definition writes_of :: "node \<Rightarrow> (node \<times> string \<times> pyval) list \<Rightarrow> (string \<times> pyval) list" where
  "writes_of n pend = map snd (filter (\<lambda>(m, kv). m = n) pend)"

definition notify :: "node \<Rightarrow> 'c Doc \<Rightarrow> 'c Doc" where
  "notify n doc =
     (if writes_of n (pending doc) = [] then doc
      else doc\<lparr>calls := calls doc @ fire (observers doc n) (MapEvent (writes_of n (pending doc)))\<rparr>)"

text \<open>
  The commit notifies each written node once. The order between the two nodes is fixed
  here as \<open>state\<close>, then \<open>source\<close>; nothing below rests on it.
\<close>

definition commit :: "'c Doc \<Rightarrow> 'c Doc" where
  "commit doc = (notify Source (notify State doc))\<lparr>pending := []\<rparr>"

definition transaction_enter :: "'c Doc \<Rightarrow> 'c Doc" where
  "transaction_enter doc = doc\<lparr>txn_depth := txn_depth doc + 1\<rparr>"

definition transaction_exit :: "'c Doc \<Rightarrow> 'c Doc" where
  "transaction_exit doc =
     (if txn_depth doc \<le> 1 then commit (doc\<lparr>txn_depth := 0\<rparr>)
      else doc\<lparr>txn_depth := txn_depth doc - 1\<rparr>)"

definition Map_setitem :: "node \<Rightarrow> string \<Rightarrow> pyval \<Rightarrow> 'c Doc \<Rightarrow> 'c Doc" where
  "Map_setitem n key v doc =
     (let d1 = transaction_enter doc;
          d2 = d1\<lparr>roots := (roots d1)(n := (roots d1 n)(key \<mapsto> v)),
                  pending := pending d1 @ [(n, key, v)]\<rparr>
      in transaction_exit d2)"

definition Map_observe :: "node \<Rightarrow> ('c \<times> string) \<Rightarrow> 'c Doc \<Rightarrow> nat \<times> 'c Doc" where
  "Map_observe n handler doc =
     (next_subscription doc,
      doc\<lparr>observers := (observers doc)(n := observers doc n @ [(next_subscription doc, handler)]),
          next_subscription := next_subscription doc + 1\<rparr>)"

definition Map_unobserve :: "node \<Rightarrow> nat \<Rightarrow> 'c Doc \<Rightarrow> 'c Doc" where
  "Map_unobserve n h doc =
     doc\<lparr>observers := (observers doc)(n := filter (\<lambda>(h', f). h' \<noteq> h) (observers doc n))\<rparr>"

section \<open>The blob document\<close>

text \<open>
  An instance holds the shared document (\<open>_ydoc\<close>, whose root maps \<open>State\<close> and
  \<open>Source\<close> are \<open>_ystate\<close> and \<open>_ysource\<close>), the table of its own subscriptions
  (\<open>_subscriptions\<close>, a dictionary from node to handle, kept in insertion order) and the
  nodes the undo manager tracks.
\<close>

record 'c YBlob =
  ydoc :: "'c Doc"
  subscriptions :: "(node \<times> nat) list"
  undo_scope :: "node list"

fun dict_setitem :: "'k \<Rightarrow> 'v \<Rightarrow> ('k \<times> 'v) list \<Rightarrow> ('k \<times> 'v) list" where
  "dict_setitem k v [] = [(k, v)]"
| "dict_setitem k v ((k', v') # rest) =
     (if k' = k then (k, v) # rest else (k', v') # dict_setitem k v rest)"

text \<open>
  Modelled from the spec: the constructor of the base document (\<open>YBaseDoc.__init__\<close>,
  in \<open>ybasedoc.py\<close>, which is not among the sources). The base document owns the root
  document handle (a new document when none is given), the root \<open>state\<close> map, an empty
  table of active subscriptions and an undo manager that tracks no node yet.
\<close>

definition YBaseDoc_init :: "'c Doc option \<Rightarrow> 'c YBlob" where
  "YBaseDoc_init d =
     \<lparr>ydoc = (case d of None \<Rightarrow> Doc_new | Some doc \<Rightarrow> doc), subscriptions = [],
      undo_scope = []\<rparr>"

text \<open>
  Modelled from the spec: \<open>YBaseDoc.unobserve\<close> (in \<open>ybasedoc.py\<close>, which is not among
  the sources) removes all active subscriptions registered by this document instance: each
  handle of the table is released on its node, and the table is emptied. With an empty
  table it changes nothing.
\<close>

definition unobserve :: "'c YBlob \<Rightarrow> 'c YBlob" where
  "unobserve self =
     self\<lparr>ydoc := foldl (\<lambda>doc (k, v). Map_unobserve k v doc) (ydoc self) (subscriptions self),
          subscriptions := []\<rparr>"

text \<open>
  The constructor: the base document's, then the root map \<open>source\<close> (present in every
  document of the model, empty until written) is added to the undo manager's scope.
\<close>

definition YBlob_init :: "'c Doc option \<Rightarrow> 'c YBlob" where
  "YBlob_init d =
     (let self = YBaseDoc_init d
      in self\<lparr>undo_scope := undo_scope self @ [Source]\<rparr>)"

definition YBlob_version :: "'c YBlob \<Rightarrow> string" where
  "YBlob_version self = ''1.0.0''"

text \<open>
  \<^verbatim>\<open>base64.b64decode(self._ysource.get("base64", "").encode())\<close>: the default of the
  lookup is the empty string; a stored value that is not a string has no \<open>encode\<close>.
\<close>

definition YBlob_get :: "'c YBlob \<Rightarrow> error + byte list" where
  "YBlob_get self =
     (case Map_get (roots (ydoc self) Source) ''base64'' (Str '''') of
        Str s \<Rightarrow> b64decode (str_encode s)
      | _ \<Rightarrow> Inl AttributeError)"

text \<open>
  \<^verbatim>\<open>if isinstance(value, bytes): value = base64.b64encode(value).decode()\<close> and then
  \<^verbatim>\<open>self._ysource["base64"] = value\<close>: bytes are replaced by their base64 text, any
  other value is written as it is. There is no other test of the argument.
\<close>

definition YBlob_set :: "pyval \<Rightarrow> 'c YBlob \<Rightarrow> error + 'c YBlob" where
  "YBlob_set value self =
     (case value of
        Bytes b \<Rightarrow>
          (case bytes_decode (b64encode b) of
             Inl e \<Rightarrow> Inl e
           | Inr s \<Rightarrow> Inr (self\<lparr>ydoc := Map_setitem Source ''base64'' (Str s) (ydoc self)\<rparr>))
      | _ \<Rightarrow> Inr (self\<lparr>ydoc := Map_setitem Source ''base64'' value (ydoc self)\<rparr>))"

text \<open>
  \<^verbatim>\<open>self.unobserve()\<close>, then one subscription on each node, the handler being
  \<^verbatim>\<open>partial(callback, "state")\<close> and \<^verbatim>\<open>partial(callback, "source")\<close>; each handle
  is stored in the table under its node.
\<close>

definition YBlob_observe :: "'c \<Rightarrow> 'c YBlob \<Rightarrow> 'c YBlob" where
  "YBlob_observe callback self0 =
     (let self1 = unobserve self0;
          (h1, doc1) = Map_observe State (callback, ''state'') (ydoc self1);
          self2 = self1\<lparr>ydoc := doc1, subscriptions := dict_setitem State h1 (subscriptions self1)\<rparr>;
          (h2, doc2) = Map_observe Source (callback, ''source'') (ydoc self2)
      in self2\<lparr>ydoc := doc2, subscriptions := dict_setitem Source h2 (subscriptions self2)\<rparr>)"

text \<open>The raw field \<open>source["base64"]\<close> of a document.\<close>

definition stored :: "'c YBlob \<Rightarrow> pyval option" where
  "stored self = roots (ydoc self) Source ''base64''"

section \<open>Predicates on documents\<close>

text \<open>
  The encoding invariant of the data model: the field \<open>source["base64"]\<close> is absent or
  holds valid base64 text.
\<close>

definition base64_invariant :: "'c YBlob \<Rightarrow> bool" where
  "base64_invariant self =
     (case stored self of None \<Rightarrow> True | Some (Str s) \<Rightarrow> valid_base64 s | Some _ \<Rightarrow> False)"

text \<open>An argument of \<open>set\<close> within its contract: bytes, or a string of valid base64 text.\<close>

definition conforming :: "pyval \<Rightarrow> bool" where
  "conforming v = (case v of Bytes b \<Rightarrow> True | Str s \<Rightarrow> valid_base64 s | _ \<Rightarrow> False)"

text \<open>
  Every handler registered on the two nodes belongs to this instance: its handle is in the
  instance's table under that node.
\<close>

definition owned :: "'c YBlob \<Rightarrow> node \<Rightarrow> bool" where
  "owned self n = list_all (\<lambda>(h, f). (n, h) \<in> set (subscriptions self)) (observers (ydoc self) n)"

definition tidy :: "'c YBlob \<Rightarrow> bool" where
  "tidy self = (owned self State \<and> owned self Source)"

text \<open>The handlers registered on a node, without their handles.\<close>

definition handlers :: "'c YBlob \<Rightarrow> node \<Rightarrow> ('c \<times> string) list" where
  "handlers self n = map snd (observers (ydoc self) n)"

text \<open>The callback is the one handler of each node, under that node's label.\<close>

definition active :: "'c \<Rightarrow> 'c YBlob \<Rightarrow> bool" where
  "active callback self =
     (handlers self State = [(callback, ''state'')] \<and> handlers self Source = [(callback, ''source'')])"

text \<open>A write to a key of the \<open>state\<close> map, as the base document's setters make.\<close>

definition ystate_setitem :: "string \<Rightarrow> pyval \<Rightarrow> 'c YBlob \<Rightarrow> 'c YBlob" where
  "ystate_setitem key v self = self\<lparr>ydoc := Map_setitem State key v (ydoc self)\<rparr>"

text \<open>Successive calls of \<open>observe\<close>, one per callback of the list.\<close>

definition observe_all :: "'c list \<Rightarrow> 'c YBlob \<Rightarrow> 'c YBlob" where
  "observe_all cbs self = foldl (\<lambda>d cb. YBlob_observe cb d) self cbs"

text \<open>
  A mutation of one of the two nodes: \<open>set\<close> writes the \<open>source\<close> node, a write to a key
  of the \<open>state\<close> map writes the \<open>state\<close> node.
\<close>

datatype mutation = Set_source pyval | Set_state string pyval

fun mutate :: "mutation \<Rightarrow> 'c YBlob \<Rightarrow> error + 'c YBlob" where
  "mutate (Set_source v) self = YBlob_set v self"
| "mutate (Set_state key v) self = Inr (ystate_setitem key v self)"

fun mutate_all :: "mutation list \<Rightarrow> 'c YBlob \<Rightarrow> error + 'c YBlob" where
  "mutate_all [] self = Inr self"
| "mutate_all (m # ms) self =
     (case mutate m self of Inl e \<Rightarrow> Inl e | Inr self' \<Rightarrow> mutate_all ms self')"

fun label_of :: "mutation \<Rightarrow> string" where
  "label_of (Set_source v) = ''source''"
| "label_of (Set_state key v) = ''state''"

text \<open>The callback invocations so far, each with its first argument.\<close>

definition invocations :: "'c YBlob \<Rightarrow> ('c \<times> string) list" where
  "invocations self = map (\<lambda>(cb, label, ev). (cb, label)) (calls (ydoc self))"

text \<open>No transaction is open on the shared document.\<close>

definition idle :: "'c YBlob \<Rightarrow> bool" where
  "idle self = (txn_depth (ydoc self) = 0 \<and> pending (ydoc self) = [])"

text \<open>
  Mutations made inside one transaction of the caller:
  \<^verbatim>\<open>with doc.transaction(): ...\<close> around them.
\<close>

definition transaction :: "mutation list \<Rightarrow> 'c YBlob \<Rightarrow> error + 'c YBlob" where
  "transaction ms self =
     (case mutate_all ms (self\<lparr>ydoc := transaction_enter (ydoc self)\<rparr>) of
        Inl e \<Rightarrow> Inl e
      | Inr self' \<Rightarrow> Inr (self'\<lparr>ydoc := transaction_exit (ydoc self')\<rparr>))"

section \<open>Properties of the substrate\<close>

lemma notify_fields:
  "roots (notify n doc) = roots doc"
  "observers (notify n doc) = observers doc"
  "next_subscription (notify n doc) = next_subscription doc"
  "txn_depth (notify n doc) = txn_depth doc"
  "pending (notify n doc) = pending doc"
  by (simp_all add: notify_def)

lemma commit_fields:
  "roots (commit doc) = roots doc"
  "observers (commit doc) = observers doc"
  "next_subscription (commit doc) = next_subscription doc"
  "txn_depth (commit doc) = txn_depth doc"
  "pending (commit doc) = []"
  by (simp_all add: commit_def notify_fields)

lemma transaction_exit_fields:
  "roots (transaction_exit doc) = roots doc"
  "observers (transaction_exit doc) = observers doc"
  "next_subscription (transaction_exit doc) = next_subscription doc"
  by (simp_all add: transaction_exit_def commit_fields)

lemma roots_Map_setitem:
  "roots (Map_setitem n key v doc) = (roots doc)(n := (roots doc n)(key \<mapsto> v))"
  by (simp add: Map_setitem_def Let_def transaction_exit_fields transaction_enter_def)

lemma observers_Map_setitem: "observers (Map_setitem n key v doc) = observers doc"
  by (simp add: Map_setitem_def Let_def transaction_exit_fields transaction_enter_def)

lemma writes_of_single:
  "writes_of m [(n, key, v)] = (if m = n then [(key, v)] else [])"
  by (simp add: writes_of_def)

text \<open>A write outside a transaction is committed at once: the node's handlers are called.\<close>

lemma Map_setitem_idle:
  assumes "txn_depth doc = 0" and "pending doc = []"
  shows "calls (Map_setitem n key v doc) =
           calls doc @ fire (observers doc n) (MapEvent [(key, v)])"
    and "txn_depth (Map_setitem n key v doc) = 0"
    and "pending (Map_setitem n key v doc) = []"
  using assms
  by (cases n; simp add: Map_setitem_def Let_def transaction_exit_def transaction_enter_def
      commit_def notify_def writes_of_single)+

text \<open>A write inside an open transaction calls nothing; it is kept for the commit.\<close>

lemma Map_setitem_open:
  assumes "0 < txn_depth doc"
  shows "calls (Map_setitem n key v doc) = calls doc"
    and "txn_depth (Map_setitem n key v doc) = txn_depth doc"
    and "pending (Map_setitem n key v doc) = pending doc @ [(n, key, v)]"
  using assms
  by (simp_all add: Map_setitem_def Let_def transaction_exit_def transaction_enter_def)

section \<open>Properties of the codec\<close>

subsection \<open>Characters and bytes\<close>

lemma byte_of_char_of_byte: "byte_of_char (char_of_byte b) = b"
proof -
  have "unat b < 2 ^ LENGTH(8)" by (rule unsigned_less)
  then have "unat b < 256" by simp
  then show ?thesis by (simp add: byte_of_char_def char_of_byte_def)
qed

lemma char_of_byte_of_char: "char_of_byte (byte_of_char c) = c"
  by (simp add: byte_of_char_def char_of_byte_def unat_of_nat)

lemma str_encode_decode: "str_encode (map char_of_byte bs) = bs"
  by (simp add: str_encode_def byte_of_char_of_byte map_idI)

lemma utf8_valid_ascii: "\<forall>b \<in> set bs. b < 0x80 \<Longrightarrow> utf8_valid bs"
  by (induction bs) simp_all

subsection \<open>The two tables are inverse\<close>

lemma sextet_cases: "(v::byte) < 64 \<Longrightarrow> v \<in> set (map of_nat [0..<64])"
proof -
  assume "v < 64"
  then have "unat v < 64" by (simp add: word_less_nat_alt)
  then have "unat v \<in> set [0..<64]" by simp
  then have "of_nat (unat v) \<in> (of_nat ` set [0..<64] :: byte set)" by (rule imageI)
  then show ?thesis by (simp del: upt.simps)
qed

lemma table_all:
  "\<forall>v \<in> set (map of_nat [0..<64]). b2a_char v \<noteq> BASE64_PAD \<and> b2a_char v < 0x80 \<and>
     table_a2b_base64 (b2a_char v) = Some (v::byte)"
  by (simp add: upt_rec b2a_char_def table_b2a_base64_def BASE64_PAD_def table_a2b_base64_def
      byte_of_char_def)

lemma m3: "(3::byte) = mask 2" and m15: "(15::byte) = mask 4" and m63: "(63::byte) = mask 6"
  by (simp_all add: mask_eq_exp_minus_1)

lemma sextet_less: "(v::byte) AND 0x3f < 64"
  using and_mask_less' [of 6 v] by (simp add: m63)

lemma b2a_char_mask: "b2a_char (v AND 0x3f) = b2a_char v"
  by (simp add: b2a_char_def and.assoc)

lemma table_inv:
  "b2a_char v \<noteq> BASE64_PAD \<and> b2a_char v < 0x80 \<and>
   table_a2b_base64 (b2a_char v) = Some (v AND 0x3f)"
  using table_all sextet_cases [OF sextet_less [of v]] b2a_char_mask [of v] by metis

lemma unat_byte_of_char: "unat (byte_of_char c) = of_char c"
proof -
  have "(of_char c :: nat) < 256" by simp
  then show ?thesis by (simp add: byte_of_char_def unat_of_nat)
qed

lemma table_a2b_nat:
  "(table_a2b_base64 b \<noteq> None) =
   (65 \<le> unat b \<and> unat b \<le> 90 \<or> 97 \<le> unat b \<and> unat b \<le> 122 \<or>
    48 \<le> unat b \<and> unat b \<le> 57 \<or> unat b = 43 \<or> unat b = 47)"
proof -
  have e: "(b = 43) = (unat b = 43)" "(b = 47) = (unat b = 47)"
    by (simp_all add: word_unat_eq_iff)
  show ?thesis
    unfolding table_a2b_base64_def by (simp add: word_le_nat_alt e)
qed

lemma a2b_byte_of_char: "(table_a2b_base64 (byte_of_char c) \<noteq> None) = b64_char c"
  by (simp only: table_a2b_nat unat_byte_of_char b64_char_def Let_def)

lemma b64_char_b2a: "b64_char (char_of_byte (b2a_char v))"
proof -
  have "table_a2b_base64 (b2a_char v) \<noteq> None" using table_inv [of v] by simp
  then have "table_a2b_base64 (byte_of_char (char_of_byte (b2a_char v))) \<noteq> None"
    by (simp add: byte_of_char_of_byte)
  then show ?thesis using a2b_byte_of_char [of "char_of_byte (b2a_char v)"] by blast
qed

lemma pad_char: "char_of_byte BASE64_PAD = CHR ''=''"
  by (simp add: char_of_byte_def BASE64_PAD_def char_of_eq_iff)

subsection \<open>Decoding what the encoder wrote\<close>

lemma ss2: "2 \<le> n \<Longrightarrow> Suc (Suc (n - 2)) = n"
  by simp

lemma bits1:
  "push_bit 2 (drop_bit 2 (a::byte) AND 0x3f) OR
   drop_bit 4 ((push_bit 4 (a AND 3) OR drop_bit 4 (b::byte)) AND 0x3f) = a"
  unfolding m3 m63
  apply (rule bit_word_eqI)
  subgoal for n
    by (cases "2 \<le> n"; cases "4 \<le> n"; cases "6 \<le> n") (auto simp add: bit_simps ss2)
  done

lemma bits2:
  "push_bit 4 (((push_bit 4 ((a::byte) AND 3) OR drop_bit 4 (b::byte)) AND 0x3f) AND 0x0f) OR
   drop_bit 2 ((push_bit 2 (b AND 0xf) OR drop_bit 6 (c::byte)) AND 0x3f) = b"
  unfolding m3 m15 m63
  apply (rule bit_word_eqI)
  subgoal for n
    by (cases "2 \<le> n"; cases "4 \<le> n"; cases "6 \<le> n") (auto simp add: bit_simps ss2)
  done

lemma bits3:
  "push_bit 6 (((push_bit 2 ((b::byte) AND 0xf) OR drop_bit 6 (c::byte)) AND 0x3f) AND 0x03) OR
   ((c AND 0x3f) AND 0x3f) = c"
  unfolding m3 m15 m63
  apply (rule bit_word_eqI)
  subgoal for n
    by (cases "2 \<le> n"; cases "4 \<le> n"; cases "6 \<le> n") (auto simp add: bit_simps ss2)
  done

lemma bits1a:
  "push_bit 2 (drop_bit 2 (a::byte) AND 0x3f) OR drop_bit 4 (push_bit 4 (a AND 3) AND 0x3f) = a"
  unfolding m3 m63
  apply (rule bit_word_eqI)
  subgoal for n
    by (cases "2 \<le> n"; cases "4 \<le> n"; cases "6 \<le> n") (auto simp add: bit_simps ss2)
  done

lemma bits2a:
  "push_bit 4 (((push_bit 4 ((a::byte) AND 3) OR drop_bit 4 (b::byte)) AND 0x3f) AND 0x0f) OR
   drop_bit 2 (push_bit 2 (b AND 0xf) AND 0x3f) = b"
  unfolding m3 m15 m63
  apply (rule bit_word_eqI)
  subgoal for n
    by (cases "2 \<le> n"; cases "4 \<le> n"; cases "6 \<le> n") (auto simp add: bit_simps ss2)
  done

lemma a2b_quad:
  assumes "c1 \<noteq> BASE64_PAD" "table_a2b_base64 c1 = Some w1"
    and "c2 \<noteq> BASE64_PAD" "table_a2b_base64 c2 = Some w2"
    and "c3 \<noteq> BASE64_PAD" "table_a2b_base64 c3 = Some w3"
    and "c4 \<noteq> BASE64_PAD" "table_a2b_base64 c4 = Some w4"
  shows "a2b_loop (c1 # c2 # c3 # c4 # rest) 0 l p out =
   a2b_loop rest 0 0 0 (out @ [push_bit 2 w1 OR drop_bit 4 w2,
      push_bit 4 (w2 AND 0x0f) OR drop_bit 2 w3,
      push_bit 6 (w3 AND 0x03) OR w4])"
  using assms by simp

lemma a2b_tail2:
  assumes "c1 \<noteq> BASE64_PAD" "table_a2b_base64 c1 = Some w1"
    and "c2 \<noteq> BASE64_PAD" "table_a2b_base64 c2 = Some w2"
    and "c3 \<noteq> BASE64_PAD" "table_a2b_base64 c3 = Some w3"
  shows "a2b_loop [c1, c2, c3, BASE64_PAD] 0 l p out =
   Inr (out @ [push_bit 2 w1 OR drop_bit 4 w2, push_bit 4 (w2 AND 0x0f) OR drop_bit 2 w3])"
  using assms by simp

lemma a2b_tail1:
  assumes "c1 \<noteq> BASE64_PAD" "table_a2b_base64 c1 = Some w1"
    and "c2 \<noteq> BASE64_PAD" "table_a2b_base64 c2 = Some w2"
  shows "a2b_loop [c1, c2, BASE64_PAD, BASE64_PAD] 0 l p out =
   Inr (out @ [push_bit 2 w1 OR drop_bit 4 w2])"
  using assms by simp

lemma b2a_not_pad: "b2a_char v \<noteq> BASE64_PAD"
  using table_inv by blast

lemma b2a_ascii: "b2a_char v < 0x80"
  using table_inv by blast

lemma a2b_b2a: "table_a2b_base64 (b2a_char v) = Some (v AND 0x3f)"
  using table_inv by blast

lemmas tinv = b2a_not_pad a2b_b2a

lemma a2b_loop_b64encode: "a2b_loop (b64encode bs) 0 l p out = Inr (out @ bs)"
proof (induction bs arbitrary: l p out rule: b64encode.induct)
  case 1
  show ?case by simp
next
  case (2 a)
  show ?case
    unfolding b64encode.simps
    by (subst a2b_tail1 [OF tinv tinv]) (simp only: bits1a)
next
  case (3 a b)
  show ?case
    unfolding b64encode.simps
    by (subst a2b_tail2 [OF tinv tinv tinv]) (simp only: bits1 bits2a)
next
  case (4 a b c rest)
  show ?case
    unfolding b64encode.simps append_Cons append_Nil
    by (subst a2b_quad [OF tinv tinv tinv tinv])
       (simp only: bits1 bits2 bits3 "4.IH" append_assoc append_Cons append_Nil)
qed

lemma b64decode_b64encode: "b64decode (b64encode bs) = Inr bs"
  by (simp add: b64decode_def a2b_loop_b64encode)

lemma pad_ascii: "BASE64_PAD < 0x80"
  by (simp add: BASE64_PAD_def)

lemma b64encode_ascii: "\<forall>b \<in> set (b64encode bs). b < 0x80"
  by (induction bs rule: b64encode.induct) (simp_all add: b2a_ascii pad_ascii)

lemma bytes_decode_b64encode: "bytes_decode (b64encode bs) = Inr (map char_of_byte (b64encode bs))"
  by (simp add: bytes_decode_def utf8_valid_ascii b64encode_ascii)

lemma pad_not_b64_char: "\<not> b64_char (CHR ''='')"
  by (simp add: b64_char_def)

lemma b2a_char_not_eq: "char_of_byte (b2a_char v) \<noteq> CHR ''=''"
  using b64_char_b2a [of v] pad_not_b64_char by auto

lemma valid_base64_b64encode: "valid_base64 (map char_of_byte (b64encode bs))"
proof (induction bs rule: b64encode.induct)
  case (4 a b c rest)
  then show ?case
    by (cases "map char_of_byte (b64encode rest)") (simp_all add: b64_char_b2a b2a_char_not_eq)
qed (simp_all add: b64_char_b2a b2a_char_not_eq pad_char)

lemma YBlob_set_Bytes:
  "YBlob_set (Bytes b) d =
   Inr (d\<lparr>ydoc := Map_setitem Source ''base64'' (Str (map char_of_byte (b64encode b))) (ydoc d)\<rparr>)"
  by (simp add: YBlob_set_def bytes_decode_b64encode)

lemma stored_setitem: "stored (d\<lparr>ydoc := Map_setitem Source ''base64'' v doc\<rparr>) = Some v"
  by (simp add: stored_def roots_Map_setitem)

lemma YBlob_get_stored_Str: "stored d = Some (Str s) \<Longrightarrow> YBlob_get d = b64decode (str_encode s)"
  by (simp add: YBlob_get_def stored_def Map_get_def)

subsection \<open>Decoding text without padding\<close>

lemma byte_of_char_pad: "(byte_of_char c = BASE64_PAD) = (c = CHR ''='')"
proof
  assume "byte_of_char c = BASE64_PAD"
  then have "char_of_byte (byte_of_char c) = char_of_byte BASE64_PAD" by simp
  then show "c = CHR ''=''" by (simp only: char_of_byte_of_char pad_char)
next
  assume "c = CHR ''=''"
  then show "byte_of_char c = BASE64_PAD" by (simp add: byte_of_char_def BASE64_PAD_def)
qed

lemma a2b_loop_no_pad:
  "BASE64_PAD \<notin> set bs \<Longrightarrow> quad_pos < 4 \<Longrightarrow>
   (a2b_loop bs quad_pos l p out = Inl Binascii_Error) =
   ((quad_pos + length (filter (\<lambda>b. table_a2b_base64 b \<noteq> None) bs)) mod 4 \<noteq> 0)"
proof (induction bs arbitrary: quad_pos l p out)
  case Nil
  then show ?case by simp
next
  case (Cons b bs)
  from Cons.prems have np: "b \<noteq> BASE64_PAD" "BASE64_PAD \<notin> set bs" by auto
  show ?case
  proof (cases "table_a2b_base64 b")
    case None
    then show ?thesis using np Cons.IH [OF np(2) Cons.prems(2)] by simp
  next
    case (Some v)
    from Cons.prems(2) consider "quad_pos = 0" | "quad_pos = 1" | "quad_pos = 2" | "quad_pos = 3"
      by linarith
    then show ?thesis
    proof cases
      case 1
      then show ?thesis using np Some Cons.IH [OF np(2), of 1] by simp
    next
      case 2
      then show ?thesis using np Some Cons.IH [OF np(2), of 2] by simp
    next
      case 3
      then show ?thesis using np Some Cons.IH [OF np(2), of 3] by simp
    next
      case 4
      then show ?thesis using np Some Cons.IH [OF np(2), of 0] by simp
    qed
  qed
qed

lemma filter_str_encode:
  "length (filter (\<lambda>b. table_a2b_base64 b \<noteq> None) (str_encode s)) = length (filter b64_char s)"
  by (simp only: str_encode_def filter_map o_def a2b_byte_of_char length_map)

lemma pad_str_encode: "(BASE64_PAD \<in> set (str_encode s)) = (CHR ''='' \<in> set s)"
proof -
  have "(BASE64_PAD \<in> set (str_encode s)) = (\<exists>c \<in> set s. BASE64_PAD = byte_of_char c)"
    by (simp add: str_encode_def image_iff)
  also have "\<dots> = (\<exists>c \<in> set s. c = CHR ''='')"
    using byte_of_char_pad by metis
  also have "\<dots> = (CHR ''='' \<in> set s)"
    by auto
  finally show ?thesis .
qed

lemma a2b_loop_skip:
  "a2b_loop bs quad_pos l p out =
   a2b_loop (filter (\<lambda>b. table_a2b_base64 b \<noteq> None \<or> b = BASE64_PAD) bs) quad_pos l p out"
proof (induction bs arbitrary: quad_pos l p out)
  case Nil
  show ?case by simp
next
  case (Cons b bs)
  show ?case
  proof (cases "b = BASE64_PAD")
    case True
    then show ?thesis using Cons.IH by simp
  next
    case False
    then show ?thesis using Cons.IH by (cases "table_a2b_base64 b") simp_all
  qed
qed

lemma filter_str_encode_chars:
  "filter (\<lambda>b. table_a2b_base64 b \<noteq> None \<or> b = BASE64_PAD) (str_encode s) =
   str_encode (filter (\<lambda>c. b64_char c \<or> c = CHR ''='') s)"
  by (simp only: str_encode_def filter_map o_def a2b_byte_of_char byte_of_char_pad)

lemma b64decode_skip:
  "b64decode (str_encode s) = b64decode (str_encode (filter (\<lambda>c. b64_char c \<or> c = CHR ''='') s))"
  unfolding b64decode_def
  by (subst a2b_loop_skip) (simp only: filter_str_encode_chars)

lemma b64encode_example: "map char_of_byte (b64encode [0, 1, 255]) = ''AAH/''"
  by (simp add: b2a_char_def table_b2a_base64_def char_of_byte_of_char)

section \<open>Properties of the subscription protocol\<close>

lemma observers_Map_unobserve:
  "observers (Map_unobserve k h doc) n =
   (if n = k then filter (\<lambda>(h', f). h' \<noteq> h) (observers doc n) else observers doc n)"
  by (simp add: Map_unobserve_def)

lemma observers_release:
  "observers (foldl (\<lambda>doc (k, v). Map_unobserve k v doc) doc subs) n =
   filter (\<lambda>(h, f). (n, h) \<notin> set subs) (observers doc n)"
proof (induction subs arbitrary: doc)
  case Nil
  show ?case by simp
next
  case (Cons p subs)
  obtain k v where p: "p = (k, v)" by (cases p)
  show ?case
    unfolding p foldl_Cons prod.case Cons.IH observers_Map_unobserve
    by (auto intro: filter_cong)
qed

lemma roots_release:
  "roots (foldl (\<lambda>doc (k, v). Map_unobserve k v doc) doc subs) = roots doc"
  by (induction subs arbitrary: doc) (auto simp add: Map_unobserve_def)

lemma calls_release:
  "calls (foldl (\<lambda>doc (k, v). Map_unobserve k v doc) doc subs) = calls doc"
  by (induction subs arbitrary: doc) (auto simp add: Map_unobserve_def)

lemma next_release:
  "next_subscription (foldl (\<lambda>doc (k, v). Map_unobserve k v doc) doc subs) = next_subscription doc"
  by (induction subs arbitrary: doc) (auto simp add: Map_unobserve_def)

lemma txn_release:
  "txn_depth (foldl (\<lambda>doc (k, v). Map_unobserve k v doc) doc subs) = txn_depth doc"
  "pending (foldl (\<lambda>doc (k, v). Map_unobserve k v doc) doc subs) = pending doc"
  by (induction subs arbitrary: doc) (auto simp add: Map_unobserve_def)

lemma unobserve_observers:
  "observers (ydoc (unobserve d)) n =
   filter (\<lambda>(h, f). (n, h) \<notin> set (subscriptions d)) (observers (ydoc d) n)"
  by (simp add: unobserve_def observers_release)

lemma unobserve_owned: "owned d n \<Longrightarrow> observers (ydoc (unobserve d)) n = []"
  by (auto simp add: unobserve_observers owned_def list_all_iff filter_empty_conv)

lemma unobserve_subscriptions: "subscriptions (unobserve d) = []"
  by (simp add: unobserve_def)

lemma unobserve_stored: "stored (unobserve d) = stored d"
  by (simp add: unobserve_def stored_def roots_release)

lemma observe_subscriptions:
  "subscriptions (YBlob_observe cb d) =
   [(State, next_subscription (ydoc d)), (Source, next_subscription (ydoc d) + 1)]"
  by (simp add: YBlob_observe_def Let_def Map_observe_def unobserve_def next_release)

lemma observe_observers_State:
  "observers (ydoc (YBlob_observe cb d)) State =
   observers (ydoc (unobserve d)) State @ [(next_subscription (ydoc d), (cb, ''state''))]"
  by (simp add: YBlob_observe_def Let_def Map_observe_def unobserve_def next_release)

lemma observe_observers_Source:
  "observers (ydoc (YBlob_observe cb d)) Source =
   observers (ydoc (unobserve d)) Source @ [(next_subscription (ydoc d) + 1, (cb, ''source''))]"
  by (simp add: YBlob_observe_def Let_def Map_observe_def unobserve_def next_release)

lemma observe_stored: "stored (YBlob_observe cb d) = stored d"
  by (simp add: YBlob_observe_def Let_def Map_observe_def unobserve_def stored_def roots_release)

lemma observe_calls: "calls (ydoc (YBlob_observe cb d)) = calls (ydoc d)"
  by (simp add: YBlob_observe_def Let_def Map_observe_def unobserve_def calls_release)

lemma observe_idle: "idle (YBlob_observe cb d) = idle d"
  by (simp add: idle_def YBlob_observe_def Let_def Map_observe_def unobserve_def txn_release)

lemma observe_tidy: "tidy d \<Longrightarrow> tidy (YBlob_observe cb d)"
  by (simp add: tidy_def owned_def observe_subscriptions observe_observers_State
      observe_observers_Source unobserve_owned)

lemma observe_active: "tidy d \<Longrightarrow> active cb (YBlob_observe cb d)"
  by (simp add: tidy_def active_def handlers_def observe_observers_State
      observe_observers_Source unobserve_owned)

lemma init_idle: "idle (YBlob_init None :: 'c YBlob)"
  by (simp add: idle_def YBlob_init_def YBaseDoc_init_def Doc_new_def)

lemma init_tidy: "tidy (YBlob_init None :: 'c YBlob)"
  by (simp add: tidy_def owned_def YBlob_init_def YBaseDoc_init_def Doc_new_def)

lemma observe_all_tidy: "tidy d \<Longrightarrow> tidy (observe_all cbs d)"
  unfolding observe_all_def by (induction cbs arbitrary: d) (simp_all add: observe_tidy)

lemma observe_all_snoc: "observe_all (cbs @ [cb]) d = YBlob_observe cb (observe_all cbs d)"
  by (simp add: observe_all_def)

subsection \<open>Writes and notifications\<close>

lemma YBlob_set_total:
  "\<exists>v'. YBlob_set v d = Inr (d\<lparr>ydoc := Map_setitem Source ''base64'' v' (ydoc d)\<rparr>)"
  apply (cases v)
     apply (simp_all add: YBlob_set_def bytes_decode_b64encode)
     apply blast+
  done

lemma YBlob_set_other:
  "\<not> is_Bytes v \<Longrightarrow>
   YBlob_set v d = Inr (d\<lparr>ydoc := Map_setitem Source ''base64'' v (ydoc d)\<rparr>)"
  by (cases v) (simp_all add: YBlob_set_def is_Bytes_def)

lemma single_handler:
  "map snd obs = [(cb, label)] \<Longrightarrow> fire obs ev = [(cb, label, ev)]"
  by (cases obs) (auto simp add: fire_def)

lemma setitem_invocations:
  assumes "handlers e n = [(cb, label)]" and "idle e"
  shows "invocations (e\<lparr>ydoc := Map_setitem n key v (ydoc e)\<rparr>) = invocations e @ [(cb, label)]"
  using assms single_handler [of "observers (ydoc e) n" cb label]
  by (simp add: invocations_def handlers_def idle_def Map_setitem_idle)

lemma setitem_handlers:
  "handlers (e\<lparr>ydoc := Map_setitem n key v (ydoc e)\<rparr>) m = handlers e m"
  by (simp add: handlers_def observers_Map_setitem)

lemma setitem_idle:
  "idle e \<Longrightarrow> idle (e\<lparr>ydoc := Map_setitem n key v (ydoc e)\<rparr>)"
  by (simp add: idle_def Map_setitem_idle)

lemma mutate_step:
  assumes "active cb e" and "idle e"
  shows "\<exists>e'. mutate m e = Inr e' \<and> invocations e' = invocations e @ [(cb, label_of m)] \<and>
           active cb e' \<and> idle e'"
proof (cases m)
  case (Set_source v)
  obtain v' where "YBlob_set v e = Inr (e\<lparr>ydoc := Map_setitem Source ''base64'' v' (ydoc e)\<rparr>)"
    using YBlob_set_total by blast
  then show ?thesis
    using assms Set_source
    by (simp add: setitem_handlers setitem_idle
        setitem_invocations [of e Source cb "''source''"] active_def)
next
  case (Set_state key v)
  then show ?thesis
    using assms
    by (simp add: ystate_setitem_def setitem_handlers setitem_idle
        setitem_invocations [of e State cb "''state''"] active_def)
qed

lemma mutate_all_active:
  "active cb e \<Longrightarrow> idle e \<Longrightarrow>
   \<exists>e'. mutate_all ms e = Inr e' \<and>
        invocations e' = invocations e @ map (\<lambda>m. (cb, label_of m)) ms \<and> active cb e'"
proof (induction ms arbitrary: e)
  case Nil
  then show ?case by simp
next
  case (Cons m ms)
  from mutate_step [OF Cons.prems, of m] obtain e1 where
    e1: "mutate m e = Inr e1" "invocations e1 = invocations e @ [(cb, label_of m)]"
      "active cb e1" "idle e1"
    by blast
  from Cons.IH [OF e1(3) e1(4)] obtain e2 where
    e2: "mutate_all ms e1 = Inr e2"
      "invocations e2 = invocations e1 @ map (\<lambda>m. (cb, label_of m)) ms" "active cb e2"
    by blast
  show ?case using e1 e2 by simp
qed

lemma observe_invocations: "invocations (YBlob_observe cb d) = invocations d"
  by (simp add: invocations_def observe_calls)

text \<open>Inside an open transaction a \<open>set\<close> calls no handler; the write waits for the commit.\<close>

lemma set_open:
  assumes "0 < txn_depth (ydoc e)"
  shows "\<exists>e' w. YBlob_set v e = Inr e' \<and> calls (ydoc e') = calls (ydoc e) \<and>
           observers (ydoc e') = observers (ydoc e) \<and> txn_depth (ydoc e') = txn_depth (ydoc e) \<and>
           pending (ydoc e') = pending (ydoc e) @ [(Source, ''base64'', w)]"
proof -
  obtain v' where "YBlob_set v e = Inr (e\<lparr>ydoc := Map_setitem Source ''base64'' v' (ydoc e)\<rparr>)"
    using YBlob_set_total by blast
  then show ?thesis
    using assms by (simp add: Map_setitem_open observers_Map_setitem)
qed

lemma set_all_open:
  "0 < txn_depth (ydoc e) \<Longrightarrow>
   \<exists>e' ws. mutate_all (map Set_source vs) e = Inr e' \<and> calls (ydoc e') = calls (ydoc e) \<and>
      observers (ydoc e') = observers (ydoc e) \<and> txn_depth (ydoc e') = txn_depth (ydoc e) \<and>
      length ws = length vs \<and>
      pending (ydoc e') = pending (ydoc e) @ map (\<lambda>w. (Source, ''base64'', w)) ws"
proof (induction vs arbitrary: e)
  case Nil
  then show ?case by simp
next
  case (Cons v vs)
  from set_open [OF Cons.prems, of v] obtain e1 w where
    e1: "YBlob_set v e = Inr e1" "calls (ydoc e1) = calls (ydoc e)"
      "observers (ydoc e1) = observers (ydoc e)" "txn_depth (ydoc e1) = txn_depth (ydoc e)"
      "pending (ydoc e1) = pending (ydoc e) @ [(Source, ''base64'', w)]"
    by blast
  from Cons.prems e1(4) have "0 < txn_depth (ydoc e1)" by simp
  from Cons.IH [OF this] obtain e2 ws where
    e2: "mutate_all (map Set_source vs) e1 = Inr e2" "calls (ydoc e2) = calls (ydoc e1)"
      "observers (ydoc e2) = observers (ydoc e1)" "txn_depth (ydoc e2) = txn_depth (ydoc e1)"
      "length ws = length vs"
      "pending (ydoc e2) = pending (ydoc e1) @ map (\<lambda>w. (Source, ''base64'', w)) ws"
    by blast
  have "length (w # ws) = length (v # vs)" using e2(5) by simp
  moreover have "pending (ydoc e2) =
      pending (ydoc e) @ map (\<lambda>w. (Source, ''base64'', w)) (w # ws)"
    using e1(5) e2(6) by simp
  ultimately show ?case
    using e1 e2 by (intro exI [of _ e2] exI [of _ "w # ws"]) simp
qed

lemma writes_of_source:
  "writes_of State (map (\<lambda>w. (Source, key, w)) ws) = []"
  "writes_of Source (map (\<lambda>w. (Source, key, w)) ws) = map (\<lambda>w. (key, w)) ws"
  by (simp_all add: writes_of_def filter_map o_def)

text \<open>
  One transaction around one or more \<open>set\<close> calls: no handler is called before the
  commit, and the commit calls the handler of the source node once.
\<close>

lemma transaction_source_once:
  assumes "active cb e" and "idle e" and "vs \<noteq> []"
  shows "\<exists>e'. transaction (map Set_source vs) e = Inr e' \<and>
           invocations e' = invocations e @ [(cb, ''source'')]"
proof -
  let ?e0 = "e\<lparr>ydoc := transaction_enter (ydoc e)\<rparr>"
  have d0: "txn_depth (ydoc ?e0) = 1" "pending (ydoc ?e0) = []"
    "calls (ydoc ?e0) = calls (ydoc e)" "observers (ydoc ?e0) = observers (ydoc e)"
    using assms(2) by (simp_all add: idle_def transaction_enter_def)
  then have "0 < txn_depth (ydoc ?e0)" by simp
  from set_all_open [OF this, of vs] obtain e1 ws where
    e1: "mutate_all (map Set_source vs) ?e0 = Inr e1" "calls (ydoc e1) = calls (ydoc ?e0)"
      "observers (ydoc e1) = observers (ydoc ?e0)" "txn_depth (ydoc e1) = txn_depth (ydoc ?e0)"
      "length ws = length vs"
      "pending (ydoc e1) = pending (ydoc ?e0) @ map (\<lambda>w. (Source, ''base64'', w)) ws"
    by blast
  from e1(5) assms(3) have ws: "ws \<noteq> []" by auto
  have h: "map snd (observers (ydoc e1) Source) = [(cb, ''source'')]"
    using assms(1) e1(3) d0(4) by (simp add: active_def handlers_def)
  have "calls (transaction_exit (ydoc e1)) =
      calls (ydoc e) @ [(cb, ''source'', MapEvent (map (\<lambda>w. (''base64'', w)) ws))]"
    using e1(2,4,6) d0 ws single_handler [OF h]
    by (simp add: transaction_exit_def commit_def notify_def writes_of_source)
  then show ?thesis
    using e1(1) by (simp add: transaction_def invocations_def)
qed

lemma YBlob_get_not_Str:
  "stored d = Some v \<Longrightarrow> \<not> is_Str v \<Longrightarrow> YBlob_get d = Inl AttributeError"
  by (cases v) (simp_all add: YBlob_get_def stored_def Map_get_def is_Str_def)

lemma init_stored: "stored (YBlob_init None) = None"
  by (simp add: stored_def YBlob_init_def YBaseDoc_init_def Doc_new_def)

lemma init_doc_stored: "stored (YBlob_init (Some doc)) = roots doc Source ''base64''"
  by (simp add: stored_def YBlob_init_def YBaseDoc_init_def)

lemma mutate_all_total: "\<exists>d'. mutate_all ms d = Inr d'"
proof (induction ms arbitrary: d)
  case Nil
  show ?case by simp
next
  case (Cons m ms)
  have "\<exists>d1. mutate m d = Inr d1"
    using YBlob_set_total by (cases m) (simp_all, blast)
  then obtain d1 where "mutate m d = Inr d1" by blast
  with Cons.IH [of d1] show ?case by simp
qed

section \<open>Properties of the document type\<close>

text \<open>
  C1 (round trip). For every byte sequence \<open>b\<close> and every document, \<open>set(b)\<close> succeeds
  and \<open>get()\<close> on the resulting document returns exactly \<open>b\<close>. The statement is for
  all byte lists, so it covers the empty sequence and every byte value 0-255.
\<close>

theorem set_get_roundtrip:
  "\<exists>d'. YBlob_set (Bytes b) d = Inr d' \<and> YBlob_get d' = Inr b"
  by (simp add: YBlob_set_Bytes YBlob_get_stored_Str [OF stored_setitem] str_encode_decode
      b64decode_b64encode)

theorem set_get_roundtrip_witness:
  "\<exists>d'. YBlob_set (Bytes [0, 1, 255]) (YBlob_init None :: nat YBlob) = Inr d' \<and>
      YBlob_get d' = Inr [0, 1, 255]"
  using set_get_roundtrip [of "[0, 1, 255]" "YBlob_init None :: nat YBlob"] by simp

text \<open>
  C2 as stated (every stored value that is not valid base64 text makes \<open>get()\<close> raise) does
  not hold: a document whose field holds \<open>!AAH/\<close>, which is not valid base64 text, is read
  without error as the bytes 00 01 ff. The decoder runs in its non-strict mode and skips the
  \<open>!\<close>.
\<close>

theorem get_invalid_base64_counterexample:
  "\<not> valid_base64 ''!AAH/'' \<and>
   stored (YBlob_init (Some (Map_setitem Source ''base64'' (Str ''!AAH/'') Doc_new)) :: nat YBlob)
     = Some (Str ''!AAH/'') \<and>
   YBlob_get (YBlob_init (Some (Map_setitem Source ''base64'' (Str ''!AAH/'') Doc_new)) :: nat YBlob)
     = Inr [0, 1, 255]"
proof -
  let ?d = "YBlob_init (Some (Map_setitem Source ''base64'' (Str ''!AAH/'') Doc_new)) :: nat YBlob"
  have nv: "\<not> valid_base64 ''!AAH/''"
    by (simp add: b64_char_def)
  have st: "stored ?d = Some (Str ''!AAH/'')"
    by (simp add: init_doc_stored roots_Map_setitem)
  have "b64decode (str_encode ''!AAH/'') = Inr [0, 1, 255]"
    by (simp add: str_encode_def byte_of_char_def b64decode_def BASE64_PAD_def
        table_a2b_base64_def)
  then have "YBlob_get ?d = Inr [0, 1, 255]"
    by (simp only: YBlob_get_stored_Str [OF st])
  with nv st show ?thesis
    by blast
qed

text \<open>
  C2, amended. For a stored string \<open>s\<close>, \<open>get()\<close> gives what decoding gives on \<open>s\<close> with
  every character other than an alphabet character or \<open>=\<close> removed: such characters are
  discarded, not reported. When \<open>s\<close> contains no \<open>=\<close>, \<open>get()\<close> raises the decoder's error
  exactly when the number of alphabet characters in \<open>s\<close> is not a multiple of four.
\<close>

theorem get_fails_iff:
  assumes "stored d = Some (Str s)"
  shows "YBlob_get d = b64decode (str_encode (filter (\<lambda>c. b64_char c \<or> c = CHR ''='') s)) \<and>
         (CHR ''='' \<notin> set s \<longrightarrow>
          (YBlob_get d = Inl Binascii_Error) = (length (filter b64_char s) mod 4 \<noteq> 0))"
proof -
  have 1: "YBlob_get d = b64decode (str_encode (filter (\<lambda>c. b64_char c \<or> c = CHR ''='') s))"
    using b64decode_skip [of s] by (simp only: YBlob_get_stored_Str [OF assms])
  have 2: "(YBlob_get d = Inl Binascii_Error) = (length (filter b64_char s) mod 4 \<noteq> 0)"
    if np: "CHR ''='' \<notin> set s"
  proof -
    from np have "BASE64_PAD \<notin> set (str_encode s)" by (simp add: pad_str_encode)
    then have "(a2b_loop (str_encode s) 0 0 0 [] = Inl Binascii_Error) =
      ((0 + length (filter (\<lambda>b. table_a2b_base64 b \<noteq> None) (str_encode s))) mod 4 \<noteq> 0)"
      by (rule a2b_loop_no_pad) simp
    then show ?thesis
      by (simp only: YBlob_get_stored_Str [OF assms] b64decode_def filter_str_encode add_0)
  qed
  from 1 2 show ?thesis by blast
qed

theorem get_fails_iff_witness:
  "stored (YBlob_init (Some (Map_setitem Source ''base64'' (Str ''A!AH'') Doc_new)) :: nat YBlob)
     = Some (Str ''A!AH'') \<and>
   CHR ''='' \<notin> set ''A!AH'' \<and>
   YBlob_get (YBlob_init (Some (Map_setitem Source ''base64'' (Str ''A!AH'') Doc_new)) :: nat YBlob)
     = Inl Binascii_Error"
proof -
  let ?d = "YBlob_init (Some (Map_setitem Source ''base64'' (Str ''A!AH'') Doc_new)) :: nat YBlob"
  have st: "stored ?d = Some (Str ''A!AH'')"
    by (simp add: init_doc_stored roots_Map_setitem)
  have np: "CHR ''='' \<notin> set ''A!AH''"
    by simp
  have cnt: "length (filter b64_char ''A!AH'') mod 4 \<noteq> 0"
    by (simp add: b64_char_def)
  from get_fails_iff [OF st] np cnt have "YBlob_get ?d = Inl Binascii_Error"
    by blast
  with st np show ?thesis
    by blast
qed

text \<open>
  C3 as stated (a value that is neither bytes nor a string makes \<open>set\<close> raise before any
  mutation, leaving \<open>source["base64"]\<close> unchanged) does not hold: on a new document, where
  the field is absent, \<open>set(None)\<close> returns normally and the field then holds \<open>None\<close>.
\<close>

theorem set_invalid_argument_counterexample:
  "stored (YBlob_init None :: nat YBlob) = None \<and>
   YBlob_set PyNone (YBlob_init None :: nat YBlob) =
     Inr ((YBlob_init None)\<lparr>ydoc := Map_setitem Source ''base64'' PyNone (ydoc (YBlob_init None))\<rparr>) \<and>
   stored ((YBlob_init None :: nat YBlob)\<lparr>ydoc := Map_setitem Source ''base64'' PyNone (ydoc (YBlob_init None))\<rparr>)
     = Some PyNone"
  by (simp add: init_stored stored_setitem YBlob_set_other is_Bytes_def)

text \<open>
  C3, amended. \<open>set\<close> checks only whether its argument is bytes, and raises no error of
  its own. A value that is neither bytes nor a string and that the shared map stores as
  given (\<open>None\<close>, a boolean) is written to \<open>source["base64"]\<close> as it is; a later
  \<open>get()\<close> on that document fails, since the stored value has no \<open>encode\<close>.
\<close>

theorem set_stores_any_value:
  assumes "\<not> is_Bytes v" and "\<not> is_Str v"
  shows "\<exists>d'. YBlob_set v d = Inr d' \<and> stored d' = Some v \<and> YBlob_get d' = Inl AttributeError"
proof -
  let ?d = "d\<lparr>ydoc := Map_setitem Source ''base64'' v (ydoc d)\<rparr>"
  have "YBlob_set v d = Inr ?d" using assms(1) by (rule YBlob_set_other)
  moreover have "stored ?d = Some v" by (rule stored_setitem)
  moreover from this assms(2) have "YBlob_get ?d = Inl AttributeError" by (rule YBlob_get_not_Str)
  ultimately show ?thesis by blast
qed

theorem set_stores_any_value_witness:
  "\<not> is_Bytes PyNone \<and> \<not> is_Str PyNone \<and>
   (\<exists>d'. YBlob_set PyNone (YBlob_init None :: nat YBlob) = Inr d' \<and>
      stored d' = Some PyNone \<and> YBlob_get d' = Inl AttributeError)"
  using set_stores_any_value [of PyNone "YBlob_init None :: nat YBlob"]
  by (simp add: is_Bytes_def is_Str_def)

text \<open>
  C4 as stated (no call of \<open>set\<close> can leave a string that is not base64 text in the field)
  does not hold: the invariant holds on a new document, and \<open>set("!")\<close> stores \<open>!\<close>, which
  is not valid base64 text.
\<close>

theorem base64_invariant_counterexample:
  "base64_invariant (YBlob_init None :: nat YBlob) \<and>
   YBlob_set (Str ''!'') (YBlob_init None :: nat YBlob) =
     Inr ((YBlob_init None)\<lparr>ydoc := Map_setitem Source ''base64'' (Str ''!'') (ydoc (YBlob_init None))\<rparr>) \<and>
   \<not> base64_invariant
     ((YBlob_init None :: nat YBlob)\<lparr>ydoc := Map_setitem Source ''base64'' (Str ''!'') (ydoc (YBlob_init None))\<rparr>)"
  by (simp add: base64_invariant_def init_stored stored_setitem YBlob_set_other is_Bytes_def)

text \<open>
  C4, amended. On a new document the field is absent, so the invariant holds. After
  \<open>set\<close> with bytes or with a string of valid base64 text the field holds a string of
  valid base64 text, whatever it held before, so the invariant holds. A string argument is
  stored as given: after \<open>set(t)\<close> the field holds \<open>t\<close>, and the invariant holds exactly
  when \<open>t\<close> is valid base64 text. \<open>observe\<close> and \<open>unobserve\<close> do not change the field.
\<close>

theorem base64_invariant_preserved:
  "stored (YBlob_init None :: 'c YBlob) = None \<and>
   base64_invariant (YBlob_init None :: 'c YBlob) \<and>
   (conforming v \<longrightarrow>
      (\<exists>d' s. YBlob_set v d = Inr d' \<and> stored d' = Some (Str s) \<and> valid_base64 s \<and>
         base64_invariant d')) \<and>
   (\<exists>d'. YBlob_set (Str t) d = Inr d' \<and> stored d' = Some (Str t) \<and>
      base64_invariant d' = valid_base64 t) \<and>
   stored (YBlob_observe cb d) = stored d \<and>
   stored (unobserve d) = stored d"
proof -
  have 0: "stored (YBlob_init None :: 'c YBlob) = None"
    by (rule init_stored)
  have 1: "base64_invariant (YBlob_init None :: 'c YBlob)"
    by (simp add: base64_invariant_def init_stored)
  have 2: "\<exists>d' s. YBlob_set v d = Inr d' \<and> stored d' = Some (Str s) \<and> valid_base64 s \<and>
      base64_invariant d'" if "conforming v"
    using that
    by (cases v)
       (simp_all add: conforming_def YBlob_set_Bytes YBlob_set_other is_Bytes_def
        base64_invariant_def stored_setitem valid_base64_b64encode)
  have 3: "\<exists>d'. YBlob_set (Str t) d = Inr d' \<and> stored d' = Some (Str t) \<and>
      base64_invariant d' = valid_base64 t"
    by (simp add: YBlob_set_other is_Bytes_def base64_invariant_def stored_setitem)
  have 4: "stored (YBlob_observe cb d) = stored d"
    by (rule observe_stored)
  have 5: "stored (unobserve d) = stored d"
    by (rule unobserve_stored)
  from 0 1 2 3 4 5 show ?thesis by blast
qed

theorem base64_invariant_preserved_witness:
  "conforming (Bytes [0, 1, 255]) \<and>
   (\<exists>d' s. YBlob_set (Bytes [0, 1, 255])
        ((YBlob_init None :: nat YBlob)\<lparr>ydoc := Map_setitem Source ''base64'' (Str ''!'') (ydoc (YBlob_init None))\<rparr>)
        = Inr d' \<and>
      stored d' = Some (Str s) \<and> valid_base64 s \<and> base64_invariant d')"
proof -
  have c: "conforming (Bytes [0, 1, 255])"
    by (simp add: conforming_def)
  from base64_invariant_preserved [of "Bytes [0, 1, 255]"
      "(YBlob_init None :: nat YBlob)\<lparr>ydoc := Map_setitem Source ''base64'' (Str ''!'') (ydoc (YBlob_init None))\<rparr>"]
    c show ?thesis
    by blast
qed

text \<open>
  C5 (idempotent observation). \<open>observe(cb)\<close> leaves on each node the handlers that remain
  after \<open>unobserve()\<close>, followed by one new handler: \<open>cb\<close> under that node's label. On a
  document whose handlers on the two nodes are all its own, one or more successive
  \<open>observe\<close> calls therefore leave exactly one handler per node (that of the last callback)
  and two entries in the table, and a following \<open>unobserve()\<close> leaves no handler and an
  empty table.
\<close>

theorem observe_idempotent:
  assumes "tidy d" and "cbs \<noteq> []"
  shows "handlers (YBlob_observe cb d) State = handlers (unobserve d) State @ [(cb, ''state'')] \<and>
         handlers (YBlob_observe cb d) Source = handlers (unobserve d) Source @ [(cb, ''source'')] \<and>
         handlers (observe_all cbs d) State = [(last cbs, ''state'')] \<and>
         handlers (observe_all cbs d) Source = [(last cbs, ''source'')] \<and>
         length (subscriptions (observe_all cbs d)) = 2 \<and>
         handlers (unobserve (observe_all cbs d)) State = [] \<and>
         handlers (unobserve (observe_all cbs d)) Source = [] \<and>
         subscriptions (unobserve (observe_all cbs d)) = []"
proof -
  from assms(2) obtain cs c where cbs: "cbs = cs @ [c]"
    by (cases cbs rule: rev_cases) auto
  let ?d = "observe_all cs d"
  have t: "tidy ?d" using assms(1) by (rule observe_all_tidy)
  have d': "observe_all cbs d = YBlob_observe c ?d"
    by (simp add: cbs observe_all_snoc)
  have a: "active c (YBlob_observe c ?d)" using t by (rule observe_active)
  have t': "tidy (YBlob_observe c ?d)" using t by (rule observe_tidy)
  have first: "handlers (YBlob_observe cb d) State = handlers (unobserve d) State @ [(cb, ''state'')]"
    "handlers (YBlob_observe cb d) Source = handlers (unobserve d) Source @ [(cb, ''source'')]"
    by (simp_all add: handlers_def observe_observers_State observe_observers_Source)
  have rest: "handlers (observe_all cbs d) State = [(last cbs, ''state'')] \<and>
         handlers (observe_all cbs d) Source = [(last cbs, ''source'')] \<and>
         length (subscriptions (observe_all cbs d)) = 2 \<and>
         handlers (unobserve (observe_all cbs d)) State = [] \<and>
         handlers (unobserve (observe_all cbs d)) Source = [] \<and>
         subscriptions (unobserve (observe_all cbs d)) = []"
    using a t' unfolding d'
    by (simp add: cbs active_def handlers_def tidy_def unobserve_owned observe_subscriptions
        unobserve_subscriptions)
  from first rest show ?thesis by blast
qed

theorem observe_idempotent_witness:
  "tidy (YBlob_init None :: nat YBlob) \<and> [7, 8 :: nat] \<noteq> [] \<and>
   handlers (observe_all [7, 8] (YBlob_init None :: nat YBlob)) State = [(8, ''state'')] \<and>
   handlers (observe_all [7, 8] (YBlob_init None :: nat YBlob)) Source = [(8, ''source'')] \<and>
   length (subscriptions (observe_all [7, 8] (YBlob_init None :: nat YBlob))) = 2 \<and>
   handlers (unobserve (observe_all [7, 8] (YBlob_init None :: nat YBlob))) State = [] \<and>
   handlers (unobserve (observe_all [7, 8] (YBlob_init None :: nat YBlob))) Source = [] \<and>
   subscriptions (unobserve (observe_all [7, 8] (YBlob_init None :: nat YBlob))) = []"
  using observe_idempotent [of "YBlob_init None :: nat YBlob" "[7, 8]"] init_tidy [where ?'c = nat]
  by simp

text \<open>
  C6 (string pass-through). \<open>set(s)\<close> on a string stores \<open>s\<close> itself: the raw field then
  reads exactly \<open>s\<close>. This holds for every string, so for every valid base64 string.
\<close>

theorem set_str_pass_through:
  "\<exists>d'. YBlob_set (Str s) d = Inr d' \<and> stored d' = Some (Str s)"
  by (simp add: YBlob_set_other is_Bytes_def stored_setitem)

theorem set_str_pass_through_witness:
  "valid_base64 ''AAH/'' \<and>
   (\<exists>d'. YBlob_set (Str ''AAH/'') (YBlob_init None :: nat YBlob) = Inr d' \<and>
      stored d' = Some (Str ''AAH/''))"
  using set_str_pass_through [of "''AAH/''" "YBlob_init None :: nat YBlob"]
  by (simp add: b64_char_def)

text \<open>
  C7 as stated (while the callback is registered, every mutation of the source node invokes
  it exactly once) does not hold: two \<open>set\<close> calls made inside one transaction of the
  caller, after \<open>observe\<close> on a new document, invoke the callback once, not twice. The
  same two calls outside a transaction invoke it twice.
\<close>

theorem callback_labels_counterexample:
  "map_sum id invocations
     (transaction [Set_source (Str ''AAH/''), Set_source (Str ''AAAA'')]
        (YBlob_observe 5 (YBlob_init None :: nat YBlob)))
     = Inr [(5, ''source'')] \<and>
   map_sum id invocations
     (mutate_all [Set_source (Str ''AAH/''), Set_source (Str ''AAAA'')]
        (YBlob_observe 5 (YBlob_init None :: nat YBlob)))
     = Inr [(5, ''source''), (5, ''source'')]"
proof -
  let ?d = "YBlob_observe 5 (YBlob_init None :: nat YBlob)"
  have a: "active 5 ?d"
    using init_tidy by (rule observe_active)
  have i: "idle ?d"
    by (simp add: observe_idle init_idle)
  have "invocations (YBlob_init None :: nat YBlob) = []"
    by (simp add: invocations_def YBlob_init_def YBaseDoc_init_def Doc_new_def)
  then have n: "invocations ?d = []"
    by (simp only: observe_invocations)
  from transaction_source_once [OF a i, of "[Str ''AAH/'', Str ''AAAA'']"]
  have 1: "map_sum id invocations
     (transaction [Set_source (Str ''AAH/''), Set_source (Str ''AAAA'')] ?d) = Inr [(5, ''source'')]"
    using n by auto
  from mutate_all_active [OF a i, of "[Set_source (Str ''AAH/''), Set_source (Str ''AAAA'')]"]
  have 2: "map_sum id invocations
     (mutate_all [Set_source (Str ''AAH/''), Set_source (Str ''AAAA'')] ?d)
     = Inr [(5, ''source''), (5, ''source'')]"
    using n by auto
  from 1 2 show ?thesis by blast
qed

text \<open>
  C7, amended. After \<open>observe(cb)\<close> on a document whose handlers on the two nodes are all
  its own and on which no transaction is open, every sequence of mutations, each made
  outside a transaction, runs without error and adds to the callback invocations exactly
  one per mutation, in order: \<open>cb\<close> with first argument \<open>source\<close> for a \<open>set\<close>, \<open>cb\<close>
  with first argument \<open>state\<close> for a write to the state node. One or more \<open>set\<close> calls
  made inside one transaction of the caller are notified together when it commits: they
  add one invocation, \<open>cb\<close> with first argument \<open>source\<close>.
\<close>

theorem callback_labels:
  assumes "tidy d" and "idle d"
  shows "(\<exists>e. mutate_all ms (YBlob_observe cb d) = Inr e \<and>
            invocations e = invocations d @ map (\<lambda>m. (cb, label_of m)) ms) \<and>
         (vs \<noteq> [] \<longrightarrow>
            (\<exists>e. transaction (map Set_source vs) (YBlob_observe cb d) = Inr e \<and>
               invocations e = invocations d @ [(cb, ''source'')]))"
proof -
  have a: "active cb (YBlob_observe cb d)"
    using assms(1) by (rule observe_active)
  have i: "idle (YBlob_observe cb d)"
    using assms(2) by (simp add: observe_idle)
  have 1: "\<exists>e. mutate_all ms (YBlob_observe cb d) = Inr e \<and>
            invocations e = invocations d @ map (\<lambda>m. (cb, label_of m)) ms"
    using mutate_all_active [OF a i, of ms] by (auto simp add: observe_invocations)
  have 2: "\<exists>e. transaction (map Set_source vs) (YBlob_observe cb d) = Inr e \<and>
               invocations e = invocations d @ [(cb, ''source'')]" if "vs \<noteq> []"
    using transaction_source_once [OF a i that] by (auto simp add: observe_invocations)
  from 1 2 show ?thesis by blast
qed

theorem callback_labels_witness:
  "tidy (YBlob_init None :: nat YBlob) \<and> idle (YBlob_init None :: nat YBlob) \<and>
   [Bytes [104, 105], Str ''AAH/''] \<noteq> [] \<and>
   (\<exists>e. mutate_all [Set_source (Bytes [104, 105]), Set_state ''dirty'' (PyBool True),
                     Set_source (Str ''AAH/'')]
           (YBlob_observe 5 (YBlob_init None :: nat YBlob)) = Inr e \<and>
        invocations e = [(5, ''source''), (5, ''state''), (5, ''source'')]) \<and>
   (\<exists>e. transaction (map Set_source [Bytes [104, 105], Str ''AAH/''])
           (YBlob_observe 5 (YBlob_init None :: nat YBlob)) = Inr e \<and>
        invocations e = [(5, ''source'')])"
proof -
  have t: "tidy (YBlob_init None :: nat YBlob)"
    by (rule init_tidy)
  have i: "idle (YBlob_init None :: nat YBlob)"
    by (rule init_idle)
  have n: "invocations (YBlob_init None :: nat YBlob) = []"
    by (simp add: invocations_def YBlob_init_def YBaseDoc_init_def Doc_new_def)
  have v: "[Bytes [104, 105], Str ''AAH/''] \<noteq> []"
    by simp
  from callback_labels [OF t i, where cb = 5 and
      ms = "[Set_source (Bytes [104, 105]), Set_state ''dirty'' (PyBool True),
             Set_source (Str ''AAH/'')]" and vs = "[Bytes [104, 105], Str ''AAH/'']"]
    t i v n show ?thesis
    by simp
qed

text \<open>
  C8 (bytes are stored as base64 text). \<open>set(b)\<close> on bytes stores the string of the base64
  encoding of \<open>b\<close>, which is valid base64 text. In particular \<open>set\<close> of the bytes 00 01 ff
  leaves the field equal to \<open>AAH/\<close>, and \<open>get()\<close> then returns those three bytes.
\<close>

theorem set_bytes_stores_base64:
  "(\<exists>d'. YBlob_set (Bytes b) d = Inr d' \<and>
      stored d' = Some (Str (map char_of_byte (b64encode b))) \<and>
      valid_base64 (map char_of_byte (b64encode b))) \<and>
   (\<exists>d'. YBlob_set (Bytes [0, 1, 255]) d = Inr d' \<and> stored d' = Some (Str ''AAH/'') \<and>
      YBlob_get d' = Inr [0, 1, 255])"
proof -
  have general: "\<exists>d'. YBlob_set (Bytes c) d = Inr d' \<and>
      stored d' = Some (Str (map char_of_byte (b64encode c))) \<and>
      valid_base64 (map char_of_byte (b64encode c)) \<and> YBlob_get d' = Inr c" for c
    by (simp add: YBlob_set_Bytes stored_setitem valid_base64_b64encode
        YBlob_get_stored_Str [OF stored_setitem] str_encode_decode b64decode_b64encode
        del: b64encode.simps)
  from general [of b] general [of "[0, 1, 255]"] show ?thesis
    unfolding b64encode_example by blast
qed

theorem set_bytes_stores_base64_witness:
  "\<exists>d'. YBlob_set (Bytes [104, 105]) (YBlob_init None :: nat YBlob) = Inr d' \<and>
      stored d' = Some (Str ''aGk='')"
proof -
  have e: "map char_of_byte (b64encode [104, 105]) = ''aGk=''"
    by (simp add: b2a_char_def table_b2a_base64_def char_of_byte_of_char pad_char)
  show ?thesis
    using set_bytes_stores_base64 [of "[104, 105]" "YBlob_init None :: nat YBlob"]
    unfolding e by blast
qed

text \<open>
  C9 (absent key). When the key \<open>base64\<close> is absent from the source map, \<open>get()\<close> decodes
  the empty string and returns the empty byte sequence.
\<close>

theorem get_absent_key:
  assumes "stored d = None"
  shows "YBlob_get d = b64decode (str_encode '''') \<and> YBlob_get d = Inr []"
  using assms by (simp add: YBlob_get_def stored_def Map_get_def str_encode_def b64decode_def)

theorem get_absent_key_witness:
  "stored (YBlob_init None :: nat YBlob) = None \<and> YBlob_get (YBlob_init None :: nat YBlob) = Inr []"
proof -
  have st: "stored (YBlob_init None :: nat YBlob) = None"
    by (rule init_stored)
  from get_absent_key [OF st] st show ?thesis
    by blast
qed

text \<open>
  C10 (version stability). The version of every document is \<open>1.0.0\<close>, and it is still
  \<open>1.0.0\<close> on the document that any sequence of mutations leads to.
\<close>

theorem version_constant:
  "YBlob_version d = ''1.0.0'' \<and>
   (\<exists>d'. mutate_all ms d = Inr d' \<and> YBlob_version d' = ''1.0.0'')"
  using mutate_all_total [of ms d] by (simp add: YBlob_version_def)

theorem version_constant_witness:
  "YBlob_version (YBlob_init None :: nat YBlob) = ''1.0.0'' \<and>
   (\<exists>d'. mutate_all [Set_source (Bytes [104, 105])] (YBlob_init None :: nat YBlob) = Inr d' \<and>
      YBlob_version d' = ''1.0.0'')"
  using version_constant [of "YBlob_init None :: nat YBlob" "[Set_source (Bytes [104, 105])]"]
  by simp

end
